theory Spec2Isabelle
  imports Main
begin

section \<open>Qt text primitives\<close>

text \<open>
  The operations of \<^verbatim>\<open>QString\<close> the window uses. \<^verbatim>\<open>QChar::isSpace\<close> is taken on the ASCII
  range: tab, line feed, vertical tab, form feed, carriage return and space.
  \<^verbatim>\<open>trimmed()\<close> drops the white space at both ends, \<^verbatim>\<open>remove(ch)\<close> every occurrence of a
  character, and \<^verbatim>\<open>split(sep)\<close> keeps empty parts, so the empty text splits into one
  empty part.
\<close>

type_synonym QString = string

definition isSpace :: "char \<Rightarrow> bool" where
  "isSpace c = (c \<in> set [CHR 0x09, CHR 0x0A, CHR 0x0B, CHR 0x0C, CHR 0x0D, CHR 0x20])"

definition trimmed :: "QString \<Rightarrow> QString" where
  "trimmed s = rev (dropWhile isSpace (rev (dropWhile isSpace s)))"

definition isEmpty :: "QString \<Rightarrow> bool" where
  "isEmpty s = (s = [])"

definition QString_remove :: "char \<Rightarrow> QString \<Rightarrow> QString" where
  "QString_remove ch s = filter (\<lambda>c. c \<noteq> ch) s"

fun split_from :: "char \<Rightarrow> QString \<Rightarrow> QString \<Rightarrow> QString list" where
  "split_from sep part [] = [part]"
| "split_from sep part (c # cs) =
     (if c = sep then part # split_from sep [] cs else split_from sep (part @ [c]) cs)"

definition QString_split :: "char \<Rightarrow> QString \<Rightarrow> QString list" where
  "QString_split sep s = split_from sep [] s"

section \<open>The verdict comparator\<close>

text \<open>
  \<^verbatim>\<open>MainWindow::isVerdictPass\<close>. Each \<^verbatim>\<open>for\<close> loop of the source is a function of its
  index; a \<^verbatim>\<open>return false\<close> inside a loop is the value \<open>False\<close> of the loop, a
  \<^verbatim>\<open>continue\<close> or the end of the body the recursive call, and leaving the loop the value
  \<open>True\<close>. The measure of both loops is the distance of the index to the longer length.
\<close>

function words_loop :: "nat \<Rightarrow> QString list \<Rightarrow> QString list \<Rightarrow> bool" where
  "words_loop j a_words b_words =
     (if j < length a_words \<or> j < length b_words then
        (if j \<ge> length a_words then
           (if isEmpty (trimmed (b_words ! j)) then words_loop (j + 1) a_words b_words
            else False)
         else if j \<ge> length b_words then
           (if isEmpty (trimmed (a_words ! j)) then words_loop (j + 1) a_words b_words
            else False)
         else if a_words ! j \<noteq> b_words ! j then False
         else words_loop (j + 1) a_words b_words)
      else True)"
  by pat_completeness auto
termination
  by (relation "measure (\<lambda>(j, a, b). max (length a) (length b) - j)") auto

declare words_loop.simps [simp del]

function lines_loop :: "nat \<Rightarrow> QString list \<Rightarrow> QString list \<Rightarrow> bool" where
  "lines_loop i a_lines b_lines =
     (if i < length a_lines \<or> i < length b_lines then
        (if i \<ge> length a_lines then
           (if isEmpty (trimmed (b_lines ! i)) then lines_loop (i + 1) a_lines b_lines
            else False)
         else if i \<ge> length b_lines then
           (if isEmpty (trimmed (a_lines ! i)) then lines_loop (i + 1) a_lines b_lines
            else False)
         else if words_loop 0 (QString_split (CHR '' '') (a_lines ! i))
                              (QString_split (CHR '' '') (b_lines ! i))
           then lines_loop (i + 1) a_lines b_lines
         else False)
      else True)"
  by pat_completeness auto
termination
  by (relation "measure (\<lambda>(i, a, b). max (length a) (length b) - i)") auto

declare lines_loop.simps [simp del]

definition isVerdictPass :: "QString \<Rightarrow> QString \<Rightarrow> bool" where
  "isVerdictPass output0 expected0 =
     (let output1 = QString_remove (CHR 0x0D) output0;
          expected1 = QString_remove (CHR 0x0D) expected0;
          a_lines = QString_split (CHR 0x0A) output1;
          b_lines = QString_split (CHR 0x0A) expected1
      in lines_loop 0 a_lines b_lines)"

subsection \<open>The reference algorithm of the specification\<close>

text \<open>
  Section 4.1 of the specification, written from its words and not from the source:
  strip the carriage returns, split into lines, walk both line sequences in lock-step,
  accept a line present on one side only when it is empty after trimming, and compare
  lines present on both sides token by token, split on the single space, by the same
  rule.
\<close>

fun spec_match_tokens :: "QString list \<Rightarrow> QString list \<Rightarrow> bool" where
  "spec_match_tokens [] [] = True"
| "spec_match_tokens [] (b # bs) = (trimmed b = [] \<and> spec_match_tokens [] bs)"
| "spec_match_tokens (a # as) [] = (trimmed a = [] \<and> spec_match_tokens as [])"
| "spec_match_tokens (a # as) (b # bs) = (a = b \<and> spec_match_tokens as bs)"

fun spec_match_lines :: "QString list \<Rightarrow> QString list \<Rightarrow> bool" where
  "spec_match_lines [] [] = True"
| "spec_match_lines [] (b # bs) = (trimmed b = [] \<and> spec_match_lines [] bs)"
| "spec_match_lines (a # as) [] = (trimmed a = [] \<and> spec_match_lines as [])"
| "spec_match_lines (a # as) (b # bs) =
     (spec_match_tokens (QString_split (CHR '' '') a) (QString_split (CHR '' '') b)
      \<and> spec_match_lines as bs)"

definition spec_isVerdictPass :: "QString \<Rightarrow> QString \<Rightarrow> bool" where
  "spec_isVerdictPass actual expected0 =
     spec_match_lines
       (QString_split (CHR 0x0A) (filter (\<lambda>c. c \<noteq> CHR 0x0D) actual))
       (QString_split (CHR 0x0A) (filter (\<lambda>c. c \<noteq> CHR 0x0D) expected0))"


section \<open>Numbers as text\<close>

text \<open>
  \<^verbatim>\<open>QString::number\<close> and \<^verbatim>\<open>std::to_string\<close> on an \<^verbatim>\<open>int\<close>: the decimal digits, with a
  minus sign for a negative number.
\<close>

definition digit :: "nat \<Rightarrow> char" where
  "digit d = ''0123456789'' ! d"

fun decimal :: "nat \<Rightarrow> string" where
  "decimal n =
     (if n < 10 then [digit n]
      else decimal (n div 10) @ [digit (n mod 10)])"

declare decimal.simps [simp del]

definition to_string :: "int \<Rightarrow> string" where
  "to_string n = (if n < 0 then CHR ''-'' # decimal (nat (- n)) else decimal (nat n))"

definition QString_number :: "int \<Rightarrow> QString" where
  "QString_number n = to_string n"

section \<open>The window, the file system and the user\<close>

text \<open>
  The three test slots are the arrays \<^verbatim>\<open>input[3]\<close>, \<^verbatim>\<open>output[3]\<close>, \<^verbatim>\<open>expected[3]\<close> and
  \<^verbatim>\<open>verdict[3]\<close> of the window. A text widget is modelled by the text it holds
  (\<^verbatim>\<open>setPlainText\<close> stores it, \<^verbatim>\<open>toPlainText\<close> reads it back), a label by its text and
  style sheet. Texts are byte strings: a \<^verbatim>\<open>QString\<close> and its UTF-8 encoding are
  identified, so \<^verbatim>\<open>toStdString\<close> and the conversion of a \<^verbatim>\<open>QByteArray\<close> read from a
  file back to a \<^verbatim>\<open>QString\<close> keep every byte. The one conversion that does not is
  explicit in the source: \<^verbatim>\<open>c_str()\<close> hands \<^verbatim>\<open>QIODevice::write(const char *)\<close> a
  zero-terminated string, so the bytes written end before the first NUL.

  The file system is a map from paths to contents, with the paths that cannot be
  opened for reading, the paths that cannot be opened for writing, and the paths on
  which a write to an open file fails. Text mode (\<^verbatim>\<open>QFile::Text\<close>) translates nothing,
  as on Unix. Every read in the source starts at offset 0 (after \<^verbatim>\<open>open\<close> or
  \<^verbatim>\<open>seek(0)\<close>) and every write lands at offset 0 of an empty file (after an \<^verbatim>\<open>open\<close> that
  truncates, or after \<^verbatim>\<open>resize(0)\<close>), so file positions are not part of the state, and
  \<^verbatim>\<open>seek(0)\<close>, \<^verbatim>\<open>flush()\<close> and \<^verbatim>\<open>close()\<close> on a handle that is dropped afterwards change
  nothing of it.

  The message log of \<^verbatim>\<open>Log::MessageLogger\<close> and the dialogs shown to the user are
  lists that grow; what the user answers to a dialog is an argument of the operation
  that may show it.
\<close>

datatype Verdict = ACCEPTED | WRONG_ANSWER | UNKNOWN

datatype Severity = Info | Warn | Error

datatype OpenMode = ReadOnly | WriteOnly | ReadWrite

datatype StandardButton = Save | Discard | Cancel

record QLabel =
  labelText :: QString
  styleSheet :: QString

record QFile =
  qfileName :: QString
  isOpen :: bool

record state =
  editor :: QString
  input :: "QString list"
  "output" :: "QString list"
  expected :: "QString list"
  verdict :: "QLabel list"
  openFile :: "QFile option"
  templatePath :: QString
  shouldSaveTests :: bool
  files :: "QString \<rightharpoonup> QString"
  unreadable :: "QString set"
  unwritable :: "QString set"
  writeFails :: "QString set"
  messages :: "(Severity \<times> string \<times> string) list"
  dialogs :: "string list"

text \<open>The four arrays have three elements each.\<close>

definition wellformed :: "state \<Rightarrow> bool" where
  "wellformed s =
     (length (input s) = 3 \<and> length (output s) = 3 \<and>
      length (expected s) = 3 \<and> length (verdict s) = 3)"

subsection \<open>The message log\<close>

definition MessageLogger_info :: "string \<Rightarrow> string \<Rightarrow> state \<Rightarrow> state" where
  "MessageLogger_info head body s = s\<lparr>messages := messages s @ [(Info, head, body)]\<rparr>"

definition MessageLogger_warn :: "string \<Rightarrow> string \<Rightarrow> state \<Rightarrow> state" where
  "MessageLogger_warn head body s = s\<lparr>messages := messages s @ [(Warn, head, body)]\<rparr>"

definition MessageLogger_error :: "string \<Rightarrow> string \<Rightarrow> state \<Rightarrow> state" where
  "MessageLogger_error head body s = s\<lparr>messages := messages s @ [(Error, head, body)]\<rparr>"

subsection \<open>Files\<close>

definition QFile_new :: "QString \<Rightarrow> QFile" where
  "QFile_new name = \<lparr>qfileName = name, isOpen = False\<rparr>"

definition QFile_exists :: "QString \<Rightarrow> state \<Rightarrow> bool" where
  "QFile_exists name s = (files s name \<noteq> None)"

text \<open>
  \<^verbatim>\<open>QFile::open\<close>: reading needs a file that exists and can be read; writing creates
  the file when it is missing and truncates it; reading and writing creates it when it
  is missing and keeps its contents. The result is the handle and the file system.
\<close>

definition QFile_open :: "OpenMode \<Rightarrow> QFile \<Rightarrow> state \<Rightarrow> QFile \<times> state" where
  "QFile_open mode f s =
     (let name = qfileName f in
      case mode of
        ReadOnly \<Rightarrow>
          (if files s name \<noteq> None \<and> name \<notin> unreadable s
           then (f\<lparr>isOpen := True\<rparr>, s) else (f\<lparr>isOpen := False\<rparr>, s))
      | WriteOnly \<Rightarrow>
          (if name \<notin> unwritable s
           then (f\<lparr>isOpen := True\<rparr>, s\<lparr>files := (files s)(name \<mapsto> [])\<rparr>)
           else (f\<lparr>isOpen := False\<rparr>, s))
      | ReadWrite \<Rightarrow>
          (if name \<notin> unwritable s \<and> name \<notin> unreadable s
           then (f\<lparr>isOpen := True\<rparr>,
                 s\<lparr>files := (files s)(name \<mapsto>
                      (case files s name of None \<Rightarrow> [] | Some c \<Rightarrow> c))\<rparr>)
           else (f\<lparr>isOpen := False\<rparr>, s)))"

text \<open>\<^verbatim>\<open>readAll\<close> from offset 0; a device that is not open gives the empty byte array.\<close>

definition QFile_readAll :: "QFile \<Rightarrow> state \<Rightarrow> QString" where
  "QFile_readAll f s =
     (if isOpen f then (case files s (qfileName f) of None \<Rightarrow> [] | Some c \<Rightarrow> c) else [])"

text \<open>
  \<^verbatim>\<open>write\<close> at offset 0 of an empty file: the result says whether the call returned
  something other than \<open>-1\<close>.
\<close>

definition QFile_write :: "QFile \<Rightarrow> QString \<Rightarrow> state \<Rightarrow> bool \<times> state" where
  "QFile_write f bytes s =
     (if isOpen f \<and> qfileName f \<notin> writeFails s
      then (True, s\<lparr>files := (files s)(qfileName f \<mapsto> bytes)\<rparr>)
      else (False, s))"

text \<open>
  \<^verbatim>\<open>resize(0)\<close>: an open file is truncated through its descriptor; a file that is not
  open is truncated by name, when it exists and can be written.
\<close>

definition QFile_resize0 :: "QFile \<Rightarrow> state \<Rightarrow> state" where
  "QFile_resize0 f s =
     (if isOpen f \<or> (files s (qfileName f) \<noteq> None \<and> qfileName f \<notin> unwritable s)
      then s\<lparr>files := (files s)(qfileName f \<mapsto> [])\<rparr>
      else s)"

text \<open>\<^verbatim>\<open>std::string::c_str\<close> read as a zero-terminated string.\<close>

definition c_str :: "QString \<Rightarrow> QString" where
  "c_str t = takeWhile (\<lambda>c. c \<noteq> CHR 0x00) t"

subsection \<open>File names\<close>

text \<open>
  \<^verbatim>\<open>QFileInfo\<close> on an absolute path without \<^verbatim>\<open>.\<close> or \<^verbatim>\<open>..\<close> segments: the file name is
  what follows the last slash, the directory what precedes it (the root directory is
  \<^verbatim>\<open>/\<close>), the complete base name the file name up to its last dot.
\<close>

definition QFileInfo_fileName :: "QString \<Rightarrow> QString" where
  "QFileInfo_fileName p = rev (takeWhile (\<lambda>c. c \<noteq> CHR ''/'') (rev p))"

definition dir_absolutePath :: "QString \<Rightarrow> QString" where
  "dir_absolutePath p =
     (let d = rev (drop 1 (dropWhile (\<lambda>c. c \<noteq> CHR ''/'') (rev p)))
      in if d = [] then ''/'' else d)"

definition completeBaseName :: "QString \<Rightarrow> QString" where
  "completeBaseName p =
     (let name = QFileInfo_fileName p
      in if CHR ''.'' \<in> set name
         then rev (drop 1 (dropWhile (\<lambda>c. c \<noteq> CHR ''.'') (rev name)))
         else name)"

definition testFile_of :: "QFile \<Rightarrow> QString" where
  "testFile_of f =
     dir_absolutePath (qfileName f) @ ''/'' @ completeBaseName (qfileName f)"

definition inName :: "QString \<Rightarrow> nat \<Rightarrow> QString" where
  "inName testFile i = testFile @ QString_number (int i + 1) @ ''.in''"

definition ansName :: "QString \<Rightarrow> nat \<Rightarrow> QString" where
  "ansName testFile i = testFile @ QString_number (int i + 1) @ ''.ans''"

section \<open>The window's operations\<close>

subsection \<open>Verdict labels and clearing\<close>

definition verdict_text :: "Verdict \<Rightarrow> QString" where
  "verdict_text v =
     (case v of ACCEPTED \<Rightarrow> ''Verdict : AC''
              | WRONG_ANSWER \<Rightarrow> ''Verdict : WA''
              | UNKNOWN \<Rightarrow> ''Verdict : **'')"

definition style_sheet :: "Verdict \<Rightarrow> QString" where
  "style_sheet v =
     (case v of ACCEPTED \<Rightarrow> ''QLabel { color : rgb(0, 180, 0); }''
              | WRONG_ANSWER \<Rightarrow> ''QLabel { color : rgb(255, 0, 0); }''
              | UNKNOWN \<Rightarrow> [])"

text \<open>The label a verdict is shown as: its text and its style sheet.\<close>

definition shown :: "Verdict \<Rightarrow> QLabel" where
  "shown v = \<lparr>labelText = verdict_text v, styleSheet = style_sheet v\<rparr>"

definition updateVerdict :: "Verdict \<Rightarrow> nat \<Rightarrow> state \<Rightarrow> state" where
  "updateVerdict v i s = s\<lparr>verdict := (verdict s)[i := shown v]\<rparr>"

definition clearTests_body :: "bool \<Rightarrow> nat \<Rightarrow> state \<Rightarrow> state" where
  "clearTests_body outputOnly i s =
     (let s1 = (if \<not> outputOnly
                then s\<lparr>input := (input s)[i := []], expected := (expected s)[i := []]\<rparr>
                else s);
          s2 = s1\<lparr>output := (output s1)[i := []]\<rparr>
      in updateVerdict UNKNOWN i s2)"

function clearTests_loop :: "bool \<Rightarrow> nat \<Rightarrow> state \<Rightarrow> state" where
  "clearTests_loop outputOnly i s =
     (if i < 3 then clearTests_loop outputOnly (i + 1) (clearTests_body outputOnly i s)
      else s)"
  by pat_completeness auto
termination
  by (relation "measure (\<lambda>(b, i, s). 3 - i)") auto

declare clearTests_loop.simps [simp del]

definition clearTests :: "bool \<Rightarrow> state \<Rightarrow> state" where
  "clearTests outputOnly s = clearTests_loop outputOnly 0 s"

subsection \<open>Loading and saving the test files\<close>

text \<open>
  \<^verbatim>\<open>loadTests()\<close> and \<^verbatim>\<open>saveTests()\<close>. The body of each loop has two halves, one for the
  \<^verbatim>\<open>.in\<close> file and one for the \<^verbatim>\<open>.ans\<close> file of slot \<open>i\<close>; each half is a definition,
  and the loop runs them in the order of the source for \<open>i = 0, 1, 2\<close>.
\<close>

definition loadTests_input :: "QString \<Rightarrow> nat \<Rightarrow> state \<Rightarrow> state" where
  "loadTests_input testFile i s =
     (if QFile_exists (inName testFile i) s then
        (case QFile_open ReadOnly (QFile_new (inName testFile i)) s of
           (inputFile, s1) \<Rightarrow>
             if isOpen inputFile then
               MessageLogger_info ''Tests''
                 (''Input #'' @ to_string (int i + 1) @ '' successfully loaded'')
                 (s1\<lparr>input := (input s1)[i := QFile_readAll inputFile s1]\<rparr>)
             else
               MessageLogger_error ''Tests''
                 (''Cannot Open'' @ qfileName inputFile @ '', Do I have read permissions?'')
                 s1)
      else s)"

definition loadTests_answer :: "QString \<Rightarrow> nat \<Rightarrow> state \<Rightarrow> state" where
  "loadTests_answer testFile i s =
     (if QFile_exists (ansName testFile i) s then
        (case QFile_open ReadOnly (QFile_new (ansName testFile i)) s of
           (answerFile, s1) \<Rightarrow>
             if isOpen answerFile then
               MessageLogger_info ''Tests''
                 (''Expected #'' @ to_string (int i + 1) @ '' successfully loaded'')
                 (s1\<lparr>expected := (expected s1)[i := QFile_readAll answerFile s1]\<rparr>)
             else
               MessageLogger_error ''Tests''
                 (''Cannot Open'' @ qfileName answerFile @ '', Do I have read permissions?'')
                 s1)
      else s)"

function loadTests_loop :: "QString \<Rightarrow> nat \<Rightarrow> state \<Rightarrow> state" where
  "loadTests_loop testFile i s =
     (if i < 3
      then loadTests_loop testFile (i + 1)
             (loadTests_answer testFile i (loadTests_input testFile i s))
      else s)"
  by pat_completeness auto
termination
  by (relation "measure (\<lambda>(t, i, s). 3 - i)") auto

declare loadTests_loop.simps [simp del]


definition saveTests_input :: "QString \<Rightarrow> nat \<Rightarrow> state \<Rightarrow> state" where
  "saveTests_input testFile i s =
     (if \<not> isEmpty (trimmed (input s ! i)) then
        (case QFile_open WriteOnly (QFile_new (inName testFile i)) s of
           (inputFile, s1) \<Rightarrow>
             if isOpen inputFile then
               (case QFile_write inputFile (c_str (input s1 ! i)) s1 of
                  (written, s2) \<Rightarrow>
                    if written then
                      MessageLogger_info ''Tests''
                        (''Input #'' @ to_string (int i + 1) @ '' successfully saved'') s2
                    else
                      MessageLogger_error ''Tests''
                        (''Input #'' @ to_string (int i + 1) @
                         '' was not successfully saved'') s2)
             else
               MessageLogger_error ''Tests''
                 (''Cannot save Input #'' @ to_string (int i + 1) @
                  '', Do I have write permission?'') s1)
      else s)"

definition saveTests_answer :: "QString \<Rightarrow> nat \<Rightarrow> state \<Rightarrow> state" where
  "saveTests_answer testFile i s =
     (if \<not> isEmpty (trimmed (expected s ! i)) then
        (case QFile_open WriteOnly (QFile_new (ansName testFile i)) s of
           (answerFile, s1) \<Rightarrow>
             if isOpen answerFile then
               (case QFile_write answerFile (c_str (expected s1 ! i)) s1 of
                  (written, s2) \<Rightarrow>
                    if written then
                      MessageLogger_info ''Tests''
                        (''Expected #'' @ to_string (int i + 1) @ '' successfully saved'') s2
                    else
                      MessageLogger_error ''Tests''
                        (''Expected #'' @ to_string (int i + 1) @
                         '' was not successfully saved'') s2)
             else
               MessageLogger_error ''Tests''
                 (''Cannot save Expected #'' @ to_string (int i + 1) @
                  '', Do I have write permission?'') s1)
      else s)"

function saveTests_loop :: "QString \<Rightarrow> nat \<Rightarrow> state \<Rightarrow> state" where
  "saveTests_loop testFile i s =
     (if i < 3
      then saveTests_loop testFile (i + 1)
             (saveTests_answer testFile i (saveTests_input testFile i s))
      else s)"
  by pat_completeness auto
termination
  by (relation "measure (\<lambda>(t, i, s). 3 - i)") auto

declare saveTests_loop.simps [simp del]

definition saveTests :: "state \<Rightarrow> state" where
  "saveTests s =
     (if openFile s = None \<or> \<not> shouldSaveTests s then s
      else saveTests_loop (testFile_of (the (openFile s))) 0 s)"

subsection \<open>The runner's callback\<close>

text \<open>
  \<^verbatim>\<open>executionFinished(id, msec, Stdout)\<close>; the parameter \<^verbatim>\<open>id\<close> is called \<open>slot\<close> here. An
  index outside the arrays is undefined behaviour in the source; the model returns
  \<open>None\<close> there.
\<close>

definition executionFinished :: "int \<Rightarrow> int \<Rightarrow> QString \<Rightarrow> state \<Rightarrow> state option" where
  "executionFinished slot msec Stdout s =
     (if slot < 0 \<or> 3 \<le> slot then None
      else
        (let i = nat slot;
             s1 = MessageLogger_info (''Runner['' @ to_string (slot + 1) @ '']'')
                    (''Execution for case #'' @ to_string (slot + 1) @
                     '' completed and took '' @ to_string msec @ '' miliseconds.'') s;
             s2 = s1\<lparr>output := (output s1)[i := []]\<rparr>;
             s3 = s2\<lparr>output := (output s2)[i := Stdout]\<rparr>
         in if isEmpty Stdout \<or> isEmpty (expected s3 ! i) then Some s3
            else if isVerdictPass Stdout (expected s3 ! i)
              then Some (updateVerdict ACCEPTED i s3)
            else Some (updateVerdict WRONG_ANSWER i s3)))"

subsection \<open>Dirty state, saving and the close confirmation\<close>

definition isTextChanged :: "state \<Rightarrow> bool" where
  "isTextChanged s =
     (case openFile s of
        None \<Rightarrow>
          if length (templatePath s) \<noteq> 0 \<and> QFile_exists (templatePath s) s then
            (case QFile_open ReadOnly (QFile_new (templatePath s)) s of
               (f, s1) \<Rightarrow> editor s1 \<noteq> QFile_readAll f s1)
          else \<not> isEmpty (editor s)
      | Some f \<Rightarrow>
          if isOpen f then QFile_readAll f s \<noteq> editor s else True)"

definition on_textChanged_triggered :: "state \<Rightarrow> state" where
  "on_textChanged_triggered s = (let isChanged = isTextChanged s in s)"

definition MainWindow_fileName :: "state \<Rightarrow> QString" where
  "MainWindow_fileName s =
     (if openFile s = None \<or> \<not> isOpen (the (openFile s)) then ''Unsaved file''
      else QFileInfo_fileName (qfileName (the (openFile s))))"

definition QFileDialog_getSaveFileName :: "string \<Rightarrow> state \<Rightarrow> state" where
  "QFileDialog_getSaveFileName caption s = s\<lparr>dialogs := dialogs s @ [caption]\<rparr>"

text \<open>
  \<^verbatim>\<open>saveFile(force, head)\<close>; \<open>chosen\<close> is what the user gives the file dialog, the empty
  text when the dialog is cancelled.
\<close>

definition saveFile :: "bool \<Rightarrow> string \<Rightarrow> QString \<Rightarrow> state \<Rightarrow> bool \<times> state" where
  "saveFile force head chosen s =
     (case openFile s of
        None \<Rightarrow>
          if force then
            (let s0 = QFileDialog_getSaveFileName ''Save File'' s;
                 filename = chosen
             in if isEmpty filename then (False, s0)
                else
                  (case QFile_open ReadWrite (QFile_new filename) s0 of
                     (f, s1) \<Rightarrow>
                       let s2 = s1\<lparr>openFile := Some f\<rparr>;
                           s3 =
                             (if isOpen f then
                                (case QFile_write f (c_str (editor s2)) (QFile_resize0 f s2) of
                                   (written, s4) \<Rightarrow>
                                     if written then
                                       MessageLogger_info head
                                         (''Saved file : '' @ qfileName f) s4
                                     else
                                       MessageLogger_warn head
                                         ''File was not saved successfully'' s4)
                              else
                                MessageLogger_error head
                                  ''Cannot Save file. Do I have write permission?'' s2)
                       in (True, on_textChanged_triggered (saveTests s3))))
          else (False, s)
      | Some f \<Rightarrow>
          (case QFile_write f (c_str (editor s)) (QFile_resize0 f s) of
             (written, s1) \<Rightarrow>
               let s2 = MessageLogger_info head
                          (''Saved with file name '' @ qfileName f) s1
               in (True, on_textChanged_triggered (saveTests s2))))"

definition QMessageBox_warning :: "string \<Rightarrow> state \<Rightarrow> state" where
  "QMessageBox_warning body s = s\<lparr>dialogs := dialogs s @ [body]\<rparr>"

text \<open>
  \<^verbatim>\<open>closeChangedConfirm()\<close>; \<open>res\<close> is the button the user presses in the message box,
  \<open>chosen\<close> the answer to the file dialog of \<^verbatim>\<open>saveFile\<close>.
\<close>

definition closeChangedConfirm :: "StandardButton \<Rightarrow> QString \<Rightarrow> state \<Rightarrow> bool \<times> state" where
  "closeChangedConfirm res chosen s =
     (let isChanged = isTextChanged s;
          confirmed = (\<not> isChanged)
      in if \<not> confirmed then
           (let s1 = QMessageBox_warning
                       (MainWindow_fileName s @ '' has been modified.'' @ [CHR 0x0A] @
                        ''Do you want to save your changes?'') s
            in if res = Save then saveFile True ''Save'' chosen s1
               else if res = Discard then (True, s1)
               else (confirmed, s1))
         else (confirmed, s))"

section \<open>Example states\<close>

text \<open>
  A window on the open source file \<^verbatim>\<open>/home/u/a.cpp\<close> with test saving switched on. Slot 0
  has the input \<^verbatim>\<open>1 2\<close> and the expected output \<^verbatim>\<open>3\<close>; the other slots are empty. On disk
  are the source file and a stale input file \<^verbatim>\<open>a2.in\<close> of slot 1.
\<close>

definition example_state :: state where
  "example_state =
     \<lparr>editor = ''int main(){}'',
      input = [''1 2'', [], []],
      output = [[], [], []],
      expected = [''3'', [], []],
      verdict = [shown UNKNOWN, shown UNKNOWN, shown UNKNOWN],
      openFile = Some \<lparr>qfileName = ''/home/u/a.cpp'', isOpen = True\<rparr>,
      templatePath = [],
      shouldSaveTests = True,
      files = [''/home/u/a.cpp'' \<mapsto> ''int main(){}'', ''/home/u/a2.in'' \<mapsto> ''5''],
      unreadable = {},
      unwritable = {},
      writeFails = {},
      messages = [],
      dialogs = []\<rparr>"

text \<open>The same window whose expected output of slot 0 holds a NUL character.\<close>

definition nul_state :: state where
  "nul_state = example_state\<lparr>expected := [[CHR ''4'', CHR 0x00, CHR ''2''], [], []]\<rparr>"

text \<open>
  A window without a backing file, holding the text \<^verbatim>\<open>x\<close>; the file \<^verbatim>\<open>/ro/a.cpp\<close> cannot be
  opened for writing.
\<close>

definition unsaved_state :: state where
  "unsaved_state =
     \<lparr>editor = ''x'',
      input = [[], [], []],
      output = [[], [], []],
      expected = [[], [], []],
      verdict = [shown UNKNOWN, shown UNKNOWN, shown UNKNOWN],
      openFile = None,
      templatePath = [],
      shouldSaveTests = False,
      files = Map.empty,
      unreadable = {},
      unwritable = {''/ro/a.cpp''},
      writeFails = {},
      messages = [],
      dialogs = []\<rparr>"

text \<open>
  The same window with a template configured: the template file exists, holds the text
  \<^verbatim>\<open>x\<close> of the editor, and cannot be read.
\<close>

definition template_state :: state where
  "template_state =
     unsaved_state\<lparr>templatePath := ''/t/tpl.cpp'',
       files := [''/t/tpl.cpp'' \<mapsto> ''x''],
       unreadable := {''/t/tpl.cpp''}\<rparr>"

text \<open>The slots of a state: what the user sees of the three tests.\<close>

definition slots :: "state \<Rightarrow> QString list \<times> QString list \<times> QString list \<times> QLabel list" where
  "slots s = (input s, output s, expected s, verdict s)"

text \<open>
  The end-to-end scenario of the specification before the run reports: slots 0 and 1
  expect \<^verbatim>\<open>42\<close> followed by a newline, slot 2 expects nothing, and no verdict is known.
\<close>

definition run_state :: state where
  "run_state =
     example_state\<lparr>input := [''1'', ''2'', ''3''],
       expected := [[CHR ''4'', CHR ''2'', CHR 0x0A], [CHR ''4'', CHR ''2'', CHR 0x0A], []]\<rparr>"

section \<open>The verdict comparator against its reference algorithm\<close>

text \<open>
  The loops of the source walk the two sequences by index; the reference algorithm of
  the specification walks them in lock-step. From index \<open>j\<close> on, the loop decides what
  the reference algorithm decides on the two remainders.
\<close>

lemma words_loop_drop:
  "words_loop j a b = spec_match_tokens (drop j a) (drop j b)"
proof (induction j a b rule: words_loop.induct)
  case (1 j a b)
  show ?case
  proof (cases "j < length a")
    case ja: True
    show ?thesis
    proof (cases "j < length b")
      case jb: True
      from ja jb 1 show ?thesis
        by (subst words_loop.simps)
           (auto simp: Cons_nth_drop_Suc [symmetric])
    next
      case jb: False
      from ja jb 1 show ?thesis
        by (subst words_loop.simps)
           (auto simp: Cons_nth_drop_Suc [symmetric] isEmpty_def)
    qed
  next
    case ja: False
    show ?thesis
    proof (cases "j < length b")
      case jb: True
      from ja jb 1 show ?thesis
        by (subst words_loop.simps)
           (auto simp: Cons_nth_drop_Suc [symmetric] isEmpty_def)
    next
      case jb: False
      from ja jb show ?thesis
        by (subst words_loop.simps) simp
    qed
  qed
qed

lemma lines_loop_drop:
  "lines_loop i a b = spec_match_lines (drop i a) (drop i b)"
proof (induction i a b rule: lines_loop.induct)
  case (1 i a b)
  show ?case
  proof (cases "i < length a")
    case ia: True
    show ?thesis
    proof (cases "i < length b")
      case ib: True
      from ia ib 1 show ?thesis
        by (subst lines_loop.simps)
           (auto simp: Cons_nth_drop_Suc [symmetric] words_loop_drop)
    next
      case ib: False
      from ia ib 1 show ?thesis
        by (subst lines_loop.simps)
           (auto simp: Cons_nth_drop_Suc [symmetric] isEmpty_def)
    qed
  next
    case ia: False
    show ?thesis
    proof (cases "i < length b")
      case ib: True
      from ia ib 1 show ?thesis
        by (subst lines_loop.simps)
           (auto simp: Cons_nth_drop_Suc [symmetric] isEmpty_def)
    next
      case ib: False
      from ia ib show ?thesis
        by (subst lines_loop.simps) simp
    qed
  qed
qed

lemma isVerdictPass_eq_reference:
  "isVerdictPass a e = spec_isVerdictPass a e"
  by (simp add: isVerdictPass_def spec_isVerdictPass_def QString_remove_def lines_loop_drop)

lemma spec_match_tokens_refl: "spec_match_tokens ws ws"
  by (induction ws) simp_all

lemma spec_match_lines_refl: "spec_match_lines ls ls"
  by (induction ls) (simp_all add: spec_match_tokens_refl)

text \<open>
  C1: \<^verbatim>\<open>isVerdictPass(actual, expected)\<close> returns true if and only if the reference
  algorithm of section 4.1 of the specification accepts: carriage returns are stripped
  from both texts, each is split into lines on newline, the lines are walked in
  lock-step, a line present on one side only matches only if it is empty after trimming,
  and lines present on both sides are split on the single space and their tokens walked
  by the same rule, any token mismatch failing the comparison.
\<close>

theorem isVerdictPass_refines_reference:
  "isVerdictPass actual expected0 = spec_isVerdictPass actual expected0"
  by (rule isVerdictPass_eq_reference)

theorem isVerdictPass_refines_reference_witness:
  "isVerdictPass ''1 2 '' ''1 2'' \<and> \<not> isVerdictPass ''1 2 3'' ''1 2'' \<and>
   isVerdictPass [CHR ''a'', CHR 0x0D, CHR 0x0A, CHR ''b''] [CHR ''a'', CHR 0x0A, CHR ''b'']"
  using isVerdictPass_refines_reference [of "''1 2 ''" "''1 2''"]
    isVerdictPass_refines_reference [of "''1 2 3''" "''1 2''"]
    isVerdictPass_refines_reference [of "[CHR ''a'', CHR 0x0D, CHR 0x0A, CHR ''b'']"
      "[CHR ''a'', CHR 0x0A, CHR ''b'']"]
  by (simp add: spec_isVerdictPass_def QString_split_def trimmed_def isSpace_def)

text \<open>C9: for every text \<open>T\<close>, \<^verbatim>\<open>isVerdictPass(T, T)\<close> returns true.\<close>

theorem isVerdictPass_reflexive:
  "isVerdictPass T T"
  by (simp add: isVerdictPass_eq_reference spec_isVerdictPass_def spec_match_lines_refl)

section \<open>Clearing the slots and the runner's callback\<close>

lemma lt3_cases: "i < (3::nat) \<Longrightarrow> i = 0 \<or> i = Suc 0 \<or> i = Suc (Suc 0)"
  by arith

lemma shown_inject: "(shown v = shown w) = (v = w)"
  by (cases v; cases w) (simp_all add: shown_def verdict_text_def style_sheet_def)

lemma upd3_nth:
  "length xs = 3 \<Longrightarrow> i < 3 \<Longrightarrow> xs[0 := v, Suc 0 := v, 2 := v] ! i = v"
  by (auto dest!: lt3_cases simp: numeral_2_eq_2)

lemma clearTests_unfold:
  "clearTests outputOnly s =
     clearTests_body outputOnly 2 (clearTests_body outputOnly 1 (clearTests_body outputOnly 0 s))"
  by (simp add: clearTests_def clearTests_loop.simps numeral_2_eq_2)

lemma clearTests_True:
  "clearTests True s =
     s\<lparr>output := (output s)[0 := [], 1 := [], 2 := []],
       verdict := (verdict s)[0 := shown UNKNOWN, 1 := shown UNKNOWN, 2 := shown UNKNOWN]\<rparr>"
  by (simp add: clearTests_unfold clearTests_body_def updateVerdict_def)

lemma clearTests_False:
  "clearTests False s =
     s\<lparr>input := (input s)[0 := [], 1 := [], 2 := []],
       expected := (expected s)[0 := [], 1 := [], 2 := []],
       output := (output s)[0 := [], 1 := [], 2 := []],
       verdict := (verdict s)[0 := shown UNKNOWN, 1 := shown UNKNOWN, 2 := shown UNKNOWN]\<rparr>"
  by (simp add: clearTests_unfold clearTests_body_def updateVerdict_def)

lemma wellformed_clearTests: "wellformed s \<Longrightarrow> wellformed (clearTests outputOnly s)"
  by (cases outputOnly) (simp_all add: wellformed_def clearTests_True clearTests_False)

text \<open>
  C10: \<^verbatim>\<open>clearTests\<close> with \<^verbatim>\<open>outputOnly = true\<close> clears every slot's actual output and
  resets every slot's verdict to Unknown while leaving every slot's input and expected
  output unchanged; with \<^verbatim>\<open>outputOnly = false\<close> it clears every slot's input and expected
  output as well.
\<close>

theorem clearTests_frame:
  assumes "wellformed s" and "i < 3"
  shows "output (clearTests True s) ! i = [] \<and>
         verdict (clearTests True s) ! i = shown UNKNOWN \<and>
         input (clearTests True s) = input s \<and>
         expected (clearTests True s) = expected s \<and>
         output (clearTests False s) ! i = [] \<and>
         verdict (clearTests False s) ! i = shown UNKNOWN \<and>
         input (clearTests False s) ! i = [] \<and>
         expected (clearTests False s) ! i = []"
  using assms by (simp add: wellformed_def clearTests_True clearTests_False upd3_nth)

theorem clearTests_frame_witness:
  "output (clearTests True example_state) ! 0 = [] \<and>
   verdict (clearTests True example_state) ! 0 = shown UNKNOWN \<and>
   input (clearTests True example_state) = [''1 2'', [], []] \<and>
   expected (clearTests True example_state) = [''3'', [], []] \<and>
   input (clearTests False example_state) ! 0 = [] \<and>
   expected (clearTests False example_state) ! 0 = []"
proof -
  have w: "wellformed example_state"
    by (simp add: example_state_def wellformed_def)
  have i: "(0::nat) < 3" by simp
  show ?thesis
    using clearTests_frame [OF w i] by (simp add: example_state_def)
qed

lemma executionFinished_Some:
  assumes "0 \<le> slot" and "slot < 3"
  shows "executionFinished slot msec out s =
     Some (s\<lparr>messages := messages s @
               [(Info, ''Runner['' @ to_string (slot + 1) @ '']'',
                 ''Execution for case #'' @ to_string (slot + 1) @
                 '' completed and took '' @ to_string msec @ '' miliseconds.'')],
             output := (output s)[nat slot := out],
             verdict :=
               (if out = [] \<or> expected s ! nat slot = [] then verdict s
                else (verdict s)[nat slot :=
                  shown (if isVerdictPass out (expected s ! nat slot)
                         then ACCEPTED else WRONG_ANSWER)])\<rparr>)"
  using assms
  by (simp add: executionFinished_def Let_def MessageLogger_info_def updateVerdict_def
      isEmpty_def)

lemma executionFinished_commute:
  assumes "0 \<le> a" "a < 3" "0 \<le> b" "b < 3" "b \<noteq> a"
  shows "map_option slots (Option.bind (executionFinished a m1 o1 s) (executionFinished b m2 o2)) =
         map_option slots (Option.bind (executionFinished b m2 o2 s) (executionFinished a m1 o1))"
proof -
  from assms have ne: "nat a \<noteq> nat b" by arith
  then have ne': "nat b \<noteq> nat a" by simp
  show ?thesis
    using assms(1-4) ne ne'
    by (simp add: executionFinished_Some slots_def list_update_swap [of "nat a" "nat b"])
qed

text \<open>
  C5: for every slot index in \<open>{0, 1, 2}\<close>, \<^verbatim>\<open>executionFinished(id, msec, stdout)\<close> sets the
  slot's actual output to \<^verbatim>\<open>stdout\<close> and leaves every other slot and all inputs and
  expected outputs unchanged. If \<^verbatim>\<open>stdout\<close> or the slot's expected output is empty the
  slot's verdict is left as it was; otherwise it becomes Accepted when
  \<^verbatim>\<open>isVerdictPass(stdout, expected)\<close> holds and WrongAnswer when it does not. Two calls
  for different slots give the same slots in either order.
\<close>

theorem executionFinished_slot:
  assumes "wellformed s" and "0 \<le> slot" and "slot < 3"
  shows "\<exists>s'. executionFinished slot msec out s = Some s' \<and>
      wellformed s' \<and>
      output s' ! nat slot = out \<and>
      (\<forall>j. j \<noteq> nat slot \<longrightarrow>
           output s' ! j = output s ! j \<and> verdict s' ! j = verdict s ! j) \<and>
      input s' = input s \<and> expected s' = expected s \<and>
      (isEmpty out \<or> isEmpty (expected s ! nat slot) \<longrightarrow>
         verdict s' ! nat slot = verdict s ! nat slot) \<and>
      (\<not> isEmpty out \<and> \<not> isEmpty (expected s ! nat slot) \<and>
       isVerdictPass out (expected s ! nat slot) \<longrightarrow>
         verdict s' ! nat slot = shown ACCEPTED) \<and>
      (\<not> isEmpty out \<and> \<not> isEmpty (expected s ! nat slot) \<and>
       \<not> isVerdictPass out (expected s ! nat slot) \<longrightarrow>
         verdict s' ! nat slot = shown WRONG_ANSWER) \<and>
      (\<forall>slot2 msec2 out2. 0 \<le> slot2 \<and> slot2 < 3 \<and> slot2 \<noteq> slot \<longrightarrow>
         map_option slots
           (Option.bind (executionFinished slot msec out s)
              (executionFinished slot2 msec2 out2)) =
         map_option slots
           (Option.bind (executionFinished slot2 msec2 out2 s)
              (executionFinished slot msec out)))"
proof -
  have n: "nat slot < 3" using assms(2,3) by arith
  have len: "length (output s) = 3" "length (verdict s) = 3"
    using assms(1) by (simp_all add: wellformed_def)
  have comm: "\<forall>slot2 msec2 out2. 0 \<le> slot2 \<and> slot2 < 3 \<and> slot2 \<noteq> slot \<longrightarrow>
         map_option slots
           (Option.bind (executionFinished slot msec out s)
              (executionFinished slot2 msec2 out2)) =
         map_option slots
           (Option.bind (executionFinished slot2 msec2 out2 s)
              (executionFinished slot msec out))"
    using executionFinished_commute [OF assms(2,3)] by blast
  obtain s' where s': "executionFinished slot msec out s = Some s'"
    by (simp add: executionFinished_Some [OF assms(2,3)])
  have fields: "wellformed s' \<and>
      output s' ! nat slot = out \<and>
      (\<forall>j. j \<noteq> nat slot \<longrightarrow>
           output s' ! j = output s ! j \<and> verdict s' ! j = verdict s ! j) \<and>
      input s' = input s \<and> expected s' = expected s \<and>
      (isEmpty out \<or> isEmpty (expected s ! nat slot) \<longrightarrow>
         verdict s' ! nat slot = verdict s ! nat slot) \<and>
      (\<not> isEmpty out \<and> \<not> isEmpty (expected s ! nat slot) \<and>
       isVerdictPass out (expected s ! nat slot) \<longrightarrow>
         verdict s' ! nat slot = shown ACCEPTED) \<and>
      (\<not> isEmpty out \<and> \<not> isEmpty (expected s ! nat slot) \<and>
       \<not> isVerdictPass out (expected s ! nat slot) \<longrightarrow>
         verdict s' ! nat slot = shown WRONG_ANSWER)"
    using s' n len assms(1)
    by (auto simp add: executionFinished_Some [OF assms(2,3)] isEmpty_def wellformed_def)
  from s' fields comm show ?thesis
    by blast
qed

theorem executionFinished_slot_witness:
  "(\<exists>s'. executionFinished 0 7 ''42'' run_state = Some s' \<and>
         output s' ! 0 = ''42'' \<and> verdict s' ! 0 = shown ACCEPTED) \<and>
   (\<exists>s'. executionFinished 1 7 ''24'' run_state = Some s' \<and>
         output s' ! 1 = ''24'' \<and> verdict s' ! 1 = shown WRONG_ANSWER) \<and>
   (\<exists>s'. executionFinished 2 7 ''42'' run_state = Some s' \<and>
         output s' ! 2 = ''42'' \<and> verdict s' ! 2 = shown UNKNOWN)"
proof -
  have w: "wellformed run_state"
    by (simp add: run_state_def example_state_def wellformed_def)
  have e: "expected run_state ! nat 0 = [CHR ''4'', CHR ''2'', CHR 0x0A]"
    "expected run_state ! nat 1 = [CHR ''4'', CHR ''2'', CHR 0x0A]"
    "expected run_state ! nat 2 = []" "verdict run_state ! nat 2 = shown UNKNOWN"
    by (simp_all add: run_state_def example_state_def)
  have p: "isVerdictPass ''42'' [CHR ''4'', CHR ''2'', CHR 0x0A]"
    "\<not> isVerdictPass ''24'' [CHR ''4'', CHR ''2'', CHR 0x0A]"
    by (simp_all add: isVerdictPass_eq_reference spec_isVerdictPass_def QString_split_def
        trimmed_def isSpace_def)
  have ne: "\<not> isEmpty ''42''" "\<not> isEmpty ''24''"
    "\<not> isEmpty [CHR ''4'', CHR ''2'', CHR 0x0A]" "isEmpty []"
    by (simp_all add: isEmpty_def)
  have i0: "(0::int) \<le> 0" "(0::int) < 3" and i1: "(0::int) \<le> 1" "(1::int) < 3"
    and i2: "(0::int) \<le> 2" "(2::int) < 3"
    by simp_all
  from executionFinished_slot [OF w i0, of 7 "''42''"] e(1) p(1) ne
  obtain s0 where "executionFinished 0 7 ''42'' run_state = Some s0"
    "output s0 ! nat 0 = ''42''" "verdict s0 ! nat 0 = shown ACCEPTED"
    by metis
  moreover
  from executionFinished_slot [OF w i1, of 7 "''24''"] e(2) p(2) ne
  obtain s1 where "executionFinished 1 7 ''24'' run_state = Some s1"
    "output s1 ! nat 1 = ''24''" "verdict s1 ! nat 1 = shown WRONG_ANSWER"
    by metis
  moreover
  from executionFinished_slot [OF w i2, of 7 "''42''"] e(3,4) ne
  obtain s2 where "executionFinished 2 7 ''42'' run_state = Some s2"
    "output s2 ! nat 2 = ''42''" "verdict s2 ! nat 2 = shown UNKNOWN"
    by metis
  ultimately show ?thesis
    by simp
qed

section \<open>Test-slot persistence\<close>

lemma to_string_small [simp]:
  "to_string 1 = ''1''" "to_string 2 = ''2''" "to_string 3 = ''3''"
  by (simp_all add: to_string_def decimal.simps digit_def)

lemma inName_simps [simp]:
  "inName t 0 = t @ ''1.in''"
  "inName t (Suc 0) = t @ ''2.in''"
  "inName t (Suc (Suc 0)) = t @ ''3.in''"
  "inName t 2 = t @ ''3.in''"
  by (simp_all add: inName_def QString_number_def)

lemma ansName_simps [simp]:
  "ansName t 0 = t @ ''1.ans''"
  "ansName t (Suc 0) = t @ ''2.ans''"
  "ansName t (Suc (Suc 0)) = t @ ''3.ans''"
  "ansName t 2 = t @ ''3.ans''"
  by (simp_all add: ansName_def QString_number_def)

lemma saveTests_input_cases:
  "saveTests_input t i s =
     (if isEmpty (trimmed (input s ! i)) then s
      else if inName t i \<in> unwritable s then
        MessageLogger_error ''Tests''
          (''Cannot save Input #'' @ to_string (int i + 1) @
           '', Do I have write permission?'') s
      else if inName t i \<in> writeFails s then
        MessageLogger_error ''Tests''
          (''Input #'' @ to_string (int i + 1) @ '' was not successfully saved'')
          (s\<lparr>files := (files s)(inName t i \<mapsto> [])\<rparr>)
      else
        MessageLogger_info ''Tests''
          (''Input #'' @ to_string (int i + 1) @ '' successfully saved'')
          (s\<lparr>files := (files s)(inName t i \<mapsto> c_str (input s ! i))\<rparr>))"
  by (simp add: saveTests_input_def QFile_open_def QFile_new_def QFile_write_def Let_def)

lemma saveTests_answer_cases:
  "saveTests_answer t i s =
     (if isEmpty (trimmed (expected s ! i)) then s
      else if ansName t i \<in> unwritable s then
        MessageLogger_error ''Tests''
          (''Cannot save Expected #'' @ to_string (int i + 1) @
           '', Do I have write permission?'') s
      else if ansName t i \<in> writeFails s then
        MessageLogger_error ''Tests''
          (''Expected #'' @ to_string (int i + 1) @ '' was not successfully saved'')
          (s\<lparr>files := (files s)(ansName t i \<mapsto> [])\<rparr>)
      else
        MessageLogger_info ''Tests''
          (''Expected #'' @ to_string (int i + 1) @ '' successfully saved'')
          (s\<lparr>files := (files s)(ansName t i \<mapsto> c_str (expected s ! i))\<rparr>))"
  by (simp add: saveTests_answer_def QFile_open_def QFile_new_def QFile_write_def Let_def)

lemma saveTests_input_frame [simp]:
  "input (saveTests_input t i s) = input s"
  "expected (saveTests_input t i s) = expected s"
  "output (saveTests_input t i s) = output s"
  "verdict (saveTests_input t i s) = verdict s"
  "editor (saveTests_input t i s) = editor s"
  "openFile (saveTests_input t i s) = openFile s"
  "templatePath (saveTests_input t i s) = templatePath s"
  "shouldSaveTests (saveTests_input t i s) = shouldSaveTests s"
  "unreadable (saveTests_input t i s) = unreadable s"
  "unwritable (saveTests_input t i s) = unwritable s"
  "writeFails (saveTests_input t i s) = writeFails s"
  "dialogs (saveTests_input t i s) = dialogs s"
  by (simp_all add: saveTests_input_cases MessageLogger_info_def MessageLogger_error_def)

lemma saveTests_answer_frame [simp]:
  "input (saveTests_answer t i s) = input s"
  "expected (saveTests_answer t i s) = expected s"
  "output (saveTests_answer t i s) = output s"
  "verdict (saveTests_answer t i s) = verdict s"
  "editor (saveTests_answer t i s) = editor s"
  "openFile (saveTests_answer t i s) = openFile s"
  "templatePath (saveTests_answer t i s) = templatePath s"
  "shouldSaveTests (saveTests_answer t i s) = shouldSaveTests s"
  "unreadable (saveTests_answer t i s) = unreadable s"
  "unwritable (saveTests_answer t i s) = unwritable s"
  "writeFails (saveTests_answer t i s) = writeFails s"
  "dialogs (saveTests_answer t i s) = dialogs s"
  by (simp_all add: saveTests_answer_cases MessageLogger_info_def MessageLogger_error_def)

lemma files_saveTests_input:
  "files (saveTests_input t i s) =
     (if isEmpty (trimmed (input s ! i)) \<or> inName t i \<in> unwritable s then files s
      else (files s)(inName t i \<mapsto>
             (if inName t i \<in> writeFails s then [] else c_str (input s ! i))))"
  by (simp add: saveTests_input_cases MessageLogger_info_def MessageLogger_error_def)

lemma files_saveTests_answer:
  "files (saveTests_answer t i s) =
     (if isEmpty (trimmed (expected s ! i)) \<or> ansName t i \<in> unwritable s then files s
      else (files s)(ansName t i \<mapsto>
             (if ansName t i \<in> writeFails s then [] else c_str (expected s ! i))))"
  by (simp add: saveTests_answer_cases MessageLogger_info_def MessageLogger_error_def)

lemma saveTests_loop_unfold:
  "saveTests_loop t 0 s =
     saveTests_answer t (Suc (Suc 0)) (saveTests_input t (Suc (Suc 0))
       (saveTests_answer t (Suc 0) (saveTests_input t (Suc 0)
         (saveTests_answer t 0 (saveTests_input t 0 s)))))"
  by (simp add: saveTests_loop.simps numeral_2_eq_2)

lemma saveTests_loop_frame [simp]:
  "input (saveTests_loop t 0 s) = input s"
  "expected (saveTests_loop t 0 s) = expected s"
  "output (saveTests_loop t 0 s) = output s"
  "verdict (saveTests_loop t 0 s) = verdict s"
  "editor (saveTests_loop t 0 s) = editor s"
  "openFile (saveTests_loop t 0 s) = openFile s"
  "templatePath (saveTests_loop t 0 s) = templatePath s"
  "shouldSaveTests (saveTests_loop t 0 s) = shouldSaveTests s"
  "unreadable (saveTests_loop t 0 s) = unreadable s"
  "unwritable (saveTests_loop t 0 s) = unwritable s"
  "writeFails (saveTests_loop t 0 s) = writeFails s"
  "dialogs (saveTests_loop t 0 s) = dialogs s"
  by (simp_all add: saveTests_loop_unfold)

lemma files_saveTests_loop_in:
  assumes "i < 3"
  shows "files (saveTests_loop t 0 s) (inName t i) =
     (if isEmpty (trimmed (input s ! i)) \<or> inName t i \<in> unwritable s
      then files s (inName t i)
      else if inName t i \<in> writeFails s then Some []
      else Some (c_str (input s ! i)))"
  using lt3_cases [OF assms]
  by (elim disjE)
     (simp_all add: saveTests_loop_unfold files_saveTests_input files_saveTests_answer)

lemma files_saveTests_loop_ans:
  assumes "i < 3"
  shows "files (saveTests_loop t 0 s) (ansName t i) =
     (if isEmpty (trimmed (expected s ! i)) \<or> ansName t i \<in> unwritable s
      then files s (ansName t i)
      else if ansName t i \<in> writeFails s then Some []
      else Some (c_str (expected s ! i)))"
  using lt3_cases [OF assms]
  by (elim disjE)
     (simp_all add: saveTests_loop_unfold files_saveTests_input files_saveTests_answer)

lemma files_saveTests_loop_other:
  assumes "\<forall>i<3. p \<noteq> inName t i \<and> p \<noteq> ansName t i"
  shows "files (saveTests_loop t 0 s) p = files s p"
proof -
  have "p \<noteq> inName t 0" "p \<noteq> inName t (Suc 0)" "p \<noteq> inName t (Suc (Suc 0))"
       "p \<noteq> ansName t 0" "p \<noteq> ansName t (Suc 0)" "p \<noteq> ansName t (Suc (Suc 0))"
    using assms by (simp_all del: inName_simps ansName_simps)
  then show ?thesis
    by (simp add: saveTests_loop_unfold files_saveTests_input files_saveTests_answer
        del: inName_simps ansName_simps)
qed

lemma loadTests_input_cases:
  "loadTests_input t i s =
     (if files s (inName t i) = None then s
      else if inName t i \<in> unreadable s then
        MessageLogger_error ''Tests''
          (''Cannot Open'' @ inName t i @ '', Do I have read permissions?'') s
      else
        MessageLogger_info ''Tests''
          (''Input #'' @ to_string (int i + 1) @ '' successfully loaded'')
          (s\<lparr>input := (input s)[i := the (files s (inName t i))]\<rparr>))"
  by (auto simp add: loadTests_input_def QFile_exists_def QFile_open_def QFile_new_def
      QFile_readAll_def Let_def)

lemma loadTests_answer_cases:
  "loadTests_answer t i s =
     (if files s (ansName t i) = None then s
      else if ansName t i \<in> unreadable s then
        MessageLogger_error ''Tests''
          (''Cannot Open'' @ ansName t i @ '', Do I have read permissions?'') s
      else
        MessageLogger_info ''Tests''
          (''Expected #'' @ to_string (int i + 1) @ '' successfully loaded'')
          (s\<lparr>expected := (expected s)[i := the (files s (ansName t i))]\<rparr>))"
  by (auto simp add: loadTests_answer_def QFile_exists_def QFile_open_def QFile_new_def
      QFile_readAll_def Let_def)

lemma loadTests_input_frame [simp]:
  "expected (loadTests_input t i s) = expected s"
  "output (loadTests_input t i s) = output s"
  "verdict (loadTests_input t i s) = verdict s"
  "editor (loadTests_input t i s) = editor s"
  "openFile (loadTests_input t i s) = openFile s"
  "templatePath (loadTests_input t i s) = templatePath s"
  "shouldSaveTests (loadTests_input t i s) = shouldSaveTests s"
  "files (loadTests_input t i s) = files s"
  "unreadable (loadTests_input t i s) = unreadable s"
  "unwritable (loadTests_input t i s) = unwritable s"
  "writeFails (loadTests_input t i s) = writeFails s"
  "dialogs (loadTests_input t i s) = dialogs s"
  by (simp_all add: loadTests_input_cases MessageLogger_info_def MessageLogger_error_def)

lemma loadTests_answer_frame [simp]:
  "input (loadTests_answer t i s) = input s"
  "output (loadTests_answer t i s) = output s"
  "verdict (loadTests_answer t i s) = verdict s"
  "editor (loadTests_answer t i s) = editor s"
  "openFile (loadTests_answer t i s) = openFile s"
  "templatePath (loadTests_answer t i s) = templatePath s"
  "shouldSaveTests (loadTests_answer t i s) = shouldSaveTests s"
  "files (loadTests_answer t i s) = files s"
  "unreadable (loadTests_answer t i s) = unreadable s"
  "unwritable (loadTests_answer t i s) = unwritable s"
  "writeFails (loadTests_answer t i s) = writeFails s"
  "dialogs (loadTests_answer t i s) = dialogs s"
  by (simp_all add: loadTests_answer_cases MessageLogger_info_def MessageLogger_error_def)

lemma input_loadTests_input:
  "input (loadTests_input t i s) =
     (if files s (inName t i) \<noteq> None \<and> inName t i \<notin> unreadable s
      then (input s)[i := the (files s (inName t i))] else input s)"
  by (simp add: loadTests_input_cases MessageLogger_info_def MessageLogger_error_def)

lemma expected_loadTests_answer:
  "expected (loadTests_answer t i s) =
     (if files s (ansName t i) \<noteq> None \<and> ansName t i \<notin> unreadable s
      then (expected s)[i := the (files s (ansName t i))] else expected s)"
  by (simp add: loadTests_answer_cases MessageLogger_info_def MessageLogger_error_def)

lemma loadTests_loop_unfold:
  "loadTests_loop t 0 s =
     loadTests_answer t (Suc (Suc 0)) (loadTests_input t (Suc (Suc 0))
       (loadTests_answer t (Suc 0) (loadTests_input t (Suc 0)
         (loadTests_answer t 0 (loadTests_input t 0 s)))))"
  by (simp add: loadTests_loop.simps numeral_2_eq_2)

lemma loadTests_loop_frame [simp]:
  "output (loadTests_loop t 0 s) = output s"
  "verdict (loadTests_loop t 0 s) = verdict s"
  "editor (loadTests_loop t 0 s) = editor s"
  "openFile (loadTests_loop t 0 s) = openFile s"
  "templatePath (loadTests_loop t 0 s) = templatePath s"
  "shouldSaveTests (loadTests_loop t 0 s) = shouldSaveTests s"
  "files (loadTests_loop t 0 s) = files s"
  "unreadable (loadTests_loop t 0 s) = unreadable s"
  "unwritable (loadTests_loop t 0 s) = unwritable s"
  "writeFails (loadTests_loop t 0 s) = writeFails s"
  "dialogs (loadTests_loop t 0 s) = dialogs s"
  by (simp_all add: loadTests_loop_unfold)

lemma length_loadTests_loop [simp]:
  "length (input (loadTests_loop t 0 s)) = length (input s)"
  "length (expected (loadTests_loop t 0 s)) = length (expected s)"
  by (simp_all add: loadTests_loop_unfold input_loadTests_input expected_loadTests_answer)



lemma testFile_of_example:
  "testFile_of \<lparr>qfileName = ''/home/u/a.cpp'', isOpen = b\<rparr> = ''/home/u/a''"
  by (simp add: testFile_of_def dir_absolutePath_def completeBaseName_def
      QFileInfo_fileName_def)

lemma trimmed_Nil [simp]: "trimmed [] = []"
  by (simp add: trimmed_def)

lemma saveTests_guard:
  "openFile s = None \<or> \<not> shouldSaveTests s \<Longrightarrow> saveTests s = s"
  by (simp add: saveTests_def)

lemma saveTests_run:
  "openFile s \<noteq> None \<Longrightarrow> shouldSaveTests s \<Longrightarrow>
   saveTests s = saveTests_loop (testFile_of (the (openFile s))) 0 s"
  by (auto simp add: saveTests_def)


text \<open>
  C2: with a backing file and the save-tests flag enabled, \<^verbatim>\<open>saveTests()\<close> writes for each
  slot the sibling files \<^verbatim>\<open><basename>{i+1}.in\<close> and \<^verbatim>\<open><basename>{i+1}.ans\<close> with the slot's
  raw input and expected-output text exactly when the text is non-empty after trimming.
  The source hands each text to \<^verbatim>\<open>write\<close> through \<^verbatim>\<open>c_str()\<close>: in the state \<open>nul_state\<close>, whose
  expected output of slot 0 is the three characters \<^verbatim>\<open>4\<close>, NUL, \<^verbatim>\<open>2\<close>, the file
  \<^verbatim>\<open>/home/u/a1.ans\<close> receives the single character \<^verbatim>\<open>4\<close>, not the raw text.
\<close>

theorem saveTests_truncates_at_NUL:
  "expected nul_state ! 0 = [CHR ''4'', CHR 0x00, CHR ''2''] \<and>
   files (saveTests nul_state) ''/home/u/a1.ans'' = Some ''4''"
proof -
  have t: "testFile_of (the (openFile nul_state)) = ''/home/u/a''"
    by (simp add: nul_state_def example_state_def testFile_of_example)
  have run: "saveTests nul_state = saveTests_loop ''/home/u/a'' 0 nul_state"
    using saveTests_run [of nul_state] t by (simp add: nul_state_def example_state_def)
  have "files (saveTests_loop ''/home/u/a'' 0 nul_state) (ansName ''/home/u/a'' 0) = Some ''4''"
    by (subst files_saveTests_loop_ans)
       (simp_all add: nul_state_def example_state_def isEmpty_def trimmed_def isSpace_def
          c_str_def)
  then show ?thesis
    by (simp add: run) (simp add: nul_state_def example_state_def)
qed




lemma c_str_id: "CHR 0x00 \<notin> set t \<Longrightarrow> c_str t = t"
  by (auto simp add: c_str_def)



subsection \<open>The backing file is none of its test files\<close>

text \<open>
  The test files are named after the directory and the complete base name of the backing
  file, followed by a digit and an extension; the backing file's own name continues after
  its complete base name with a dot or not at all, so \<^verbatim>\<open>saveTests()\<close> never writes to the
  backing file.
\<close>

lemma fileName_no_slash: "CHR ''/'' \<notin> set (QFileInfo_fileName p)"
proof -
  have "\<forall>c \<in> set (takeWhile (\<lambda>c. c \<noteq> CHR ''/'') (rev p)). c \<noteq> CHR ''/''"
    by (auto dest: set_takeWhileD)
  then show ?thesis
    by (auto simp add: QFileInfo_fileName_def)
qed

lemma completeBaseName_no_slash: "CHR ''/'' \<notin> set (completeBaseName p)"
proof -
  have "set (drop 1 (dropWhile (\<lambda>c. c \<noteq> CHR ''.'') (rev (QFileInfo_fileName p))))
        \<subseteq> set (QFileInfo_fileName p)"
    by (metis set_drop_subset set_dropWhileD set_rev subsetI subset_trans)
  then show ?thesis
    using fileName_no_slash [of p]
    by (auto simp add: completeBaseName_def Let_def)
qed

lemma fileName_append:
  assumes "CHR ''/'' \<notin> set n"
  shows "QFileInfo_fileName (d @ ''/'' @ n) = n"
proof -
  have "takeWhile (\<lambda>c. c \<noteq> CHR ''/'') (rev n @ CHR ''/'' # rev d) = rev n"
    using assms by (subst takeWhile_append2) auto
  then show ?thesis
    by (simp add: QFileInfo_fileName_def)
qed

lemma fileName_split:
  assumes "CHR ''.'' \<in> set n"
  shows "n = rev (drop 1 (dropWhile (\<lambda>c. c \<noteq> CHR ''.'') (rev n))) @ CHR ''.'' #
             rev (takeWhile (\<lambda>c. c \<noteq> CHR ''.'') (rev n))"
proof -
  let ?P = "\<lambda>c. c \<noteq> CHR ''.''"
  from assms have ne: "dropWhile ?P (rev n) \<noteq> []"
    by (auto simp add: dropWhile_eq_Nil_conv)
  then have "\<not> ?P (hd (dropWhile ?P (rev n)))"
    by (rule hd_dropWhile)
  then have h: "hd (dropWhile ?P (rev n)) = CHR ''.''"
    by simp
  define r where "r = tl (dropWhile ?P (rev n))"
  have r: "dropWhile ?P (rev n) = CHR ''.'' # r"
    using hd_Cons_tl [OF ne] h by (simp add: r_def)
  have d: "rev (drop 1 (dropWhile ?P (rev n))) = rev r"
    by (simp add: r)
  have "n = rev (takeWhile ?P (rev n) @ dropWhile ?P (rev n))"
    by simp
  also have "\<dots> = rev (takeWhile ?P (rev n) @ CHR ''.'' # r)"
    by (simp only: r)
  also have "\<dots> = rev r @ CHR ''.'' # rev (takeWhile ?P (rev n))"
    by simp
  finally have "n = rev r @ CHR ''.'' # rev (takeWhile ?P (rev n))" .
  then show ?thesis
    by (subst d)
qed

lemma name_not_test_name:
  assumes "sfx \<noteq> []" and "hd sfx \<noteq> CHR ''.''" and "CHR ''/'' \<notin> set sfx"
  shows "p \<noteq> dir_absolutePath p @ ''/'' @ completeBaseName p @ sfx"
proof
  assume eq: "p = dir_absolutePath p @ ''/'' @ completeBaseName p @ sfx"
  let ?n = "QFileInfo_fileName p"
  have "CHR ''/'' \<notin> set (completeBaseName p @ sfx)"
    using completeBaseName_no_slash assms(3) by simp
  then have "QFileInfo_fileName (dir_absolutePath p @ ''/'' @ completeBaseName p @ sfx) =
             completeBaseName p @ sfx"
    by (rule fileName_append)
  moreover have "?n =
      QFileInfo_fileName (dir_absolutePath p @ ''/'' @ completeBaseName p @ sfx)"
    using eq by (rule arg_cong)
  ultimately have n: "?n = completeBaseName p @ sfx"
    by (rule back_subst [where P = "\<lambda>x. ?n = x", rotated])
  show False
  proof (cases "CHR ''.'' \<in> set ?n")
    case False
    then have cb: "completeBaseName p = ?n"
      by (simp add: completeBaseName_def Let_def)
    have "?n = ?n @ sfx"
      using n by (simp only: cb)
    then have "sfx = []"
      by (simp only: self_append_conv)
    with assms(1) show False
      by simp
  next
    case True
    then have b: "completeBaseName p =
        rev (drop 1 (dropWhile (\<lambda>c. c \<noteq> CHR ''.'') (rev ?n)))"
      by (simp add: completeBaseName_def Let_def)
    have "completeBaseName p @ sfx = ?n"
      using n by (rule sym)
    also have "?n = completeBaseName p @ CHR ''.'' #
                 rev (takeWhile (\<lambda>c. c \<noteq> CHR ''.'') (rev ?n))"
      by (subst b) (rule fileName_split [OF True])
    finally have "sfx = CHR ''.'' # rev (takeWhile (\<lambda>c. c \<noteq> CHR ''.'') (rev ?n))"
      by (simp only: same_append_eq)
    then have "hd sfx = CHR ''.''"
      by (simp only: list.sel)
    with assms(2) show False
      by simp
  qed
qed

lemma backing_file_not_test_file:
  assumes "i < 3"
  shows "qfileName f \<noteq> inName (testFile_of f) i" "qfileName f \<noteq> ansName (testFile_of f) i"
proof -
  have "to_string (int i + 1) \<in> {''1'', ''2'', ''3''}"
    using lt3_cases [OF assms] by (auto simp add: numeral_2_eq_2)
  then have "\<And>ext. CHR ''/'' \<notin> set ext \<Longrightarrow>
      qfileName f \<noteq> dir_absolutePath (qfileName f) @ ''/'' @
        completeBaseName (qfileName f) @ (to_string (int i + 1) @ ext)"
    by (intro name_not_test_name) auto
  from this [of "''.in''"] this [of "''.ans''"]
  show "qfileName f \<noteq> inName (testFile_of f) i" "qfileName f \<noteq> ansName (testFile_of f) i"
    by (simp_all add: inName_def ansName_def testFile_of_def QString_number_def)
qed

lemma saveTests_frame [simp]:
  "input (saveTests s) = input s"
  "expected (saveTests s) = expected s"
  "output (saveTests s) = output s"
  "verdict (saveTests s) = verdict s"
  "editor (saveTests s) = editor s"
  "openFile (saveTests s) = openFile s"
  "templatePath (saveTests s) = templatePath s"
  "shouldSaveTests (saveTests s) = shouldSaveTests s"
  "unreadable (saveTests s) = unreadable s"
  "unwritable (saveTests s) = unwritable s"
  "writeFails (saveTests s) = writeFails s"
  "dialogs (saveTests s) = dialogs s"
  by (simp_all add: saveTests_def)

lemma saveTests_keeps_backing_file:
  assumes "openFile s = Some f"
  shows "files (saveTests s) (qfileName f) = files s (qfileName f)"
proof (cases "shouldSaveTests s")
  case False
  then show ?thesis by (simp add: saveTests_def)
next
  case True
  have "\<forall>i<3. qfileName f \<noteq> inName (testFile_of f) i \<and>
               qfileName f \<noteq> ansName (testFile_of f) i"
    using backing_file_not_test_file by blast
  then have "files (saveTests_loop (testFile_of f) 0 s) (qfileName f) = files s (qfileName f)"
    by (rule files_saveTests_loop_other)
  with True assms show ?thesis
    by (simp add: saveTests_def)
qed

lemma saveTests_writes:
  assumes "openFile s = Some f" and "shouldSaveTests s" and "i < 3"
  shows "files (saveTests s) (inName (testFile_of f) i) =
     (if isEmpty (trimmed (input s ! i)) \<or> inName (testFile_of f) i \<in> unwritable s
      then files s (inName (testFile_of f) i)
      else if inName (testFile_of f) i \<in> writeFails s then Some []
      else Some (c_str (input s ! i)))"
    and "files (saveTests s) (ansName (testFile_of f) i) =
     (if isEmpty (trimmed (expected s ! i)) \<or> ansName (testFile_of f) i \<in> unwritable s
      then files s (ansName (testFile_of f) i)
      else if ansName (testFile_of f) i \<in> writeFails s then Some []
      else Some (c_str (expected s ! i)))"
  using assms
  by (simp_all add: saveTests_def files_saveTests_loop_in files_saveTests_loop_ans
      del: inName_simps ansName_simps)

lemma saveTests_writes_nothing_else:
  assumes "openFile s = Some f"
    and "\<forall>i<3. p \<noteq> inName (testFile_of f) i \<and> p \<noteq> ansName (testFile_of f) i"
  shows "files (saveTests s) p = files s p"
  using assms by (simp add: saveTests_def files_saveTests_loop_other)

section \<open>Dirty state and the close confirmation\<close>

lemma isTextChanged_cases:
  "isTextChanged s =
     (case openFile s of
        None \<Rightarrow>
          if templatePath s \<noteq> [] \<and> files s (templatePath s) \<noteq> None \<and>
             templatePath s \<notin> unreadable s
          then editor s \<noteq> the (files s (templatePath s))
          else editor s \<noteq> []
      | Some f \<Rightarrow>
          if isOpen f
          then editor s \<noteq> (case files s (qfileName f) of None \<Rightarrow> [] | Some c \<Rightarrow> c)
          else True)"
  by (auto simp add: isTextChanged_def QFile_exists_def QFile_open_def QFile_new_def
      QFile_readAll_def isEmpty_def Let_def split: option.splits)

text \<open>
  C6 as stated fails: in \<open>template_state\<close> there is no backing file, the configured
  template exists and holds exactly the editor's text, yet the template cannot be opened
  for reading, \<^verbatim>\<open>readAll\<close> gives the empty text and \<^verbatim>\<open>isTextChanged()\<close> returns true.
\<close>

theorem isTextChanged_unreadable_template_counterexample:
  "openFile template_state = None \<and>
   templatePath template_state \<noteq> [] \<and>
   QFile_exists (templatePath template_state) template_state \<and>
   files template_state (templatePath template_state) = Some (editor template_state) \<and>
   isTextChanged template_state"
  by (simp add: isTextChanged_cases QFile_exists_def template_state_def unsaved_state_def)

text \<open>
  C6, amended: \<^verbatim>\<open>isTextChanged()\<close> returns: without a backing file, when a template path
  is configured whose file exists and can be opened for reading, whether the editor text
  differs from the template's contents; without a backing file, when no template is
  configured or its file does not exist or cannot be opened for reading, whether the
  editor buffer is non-empty; with a backing file that is open, whether the editor text
  differs from the file's contents on disk at the time of the call; with a backing file
  handle that is not open, true.
\<close>

theorem isTextChanged_spec:
  "(openFile s = None \<and> templatePath s \<noteq> [] \<and> files s (templatePath s) = Some c \<and>
    templatePath s \<notin> unreadable s \<longrightarrow> isTextChanged s = (editor s \<noteq> c)) \<and>
   (openFile s = None \<and>
    (templatePath s = [] \<or> \<not> QFile_exists (templatePath s) s \<or>
     templatePath s \<in> unreadable s) \<longrightarrow> isTextChanged s = (\<not> isEmpty (editor s))) \<and>
   (openFile s = Some f \<and> isOpen f \<and> files s (qfileName f) = Some c \<longrightarrow>
      isTextChanged s = (editor s \<noteq> c)) \<and>
   (openFile s = Some f \<and> \<not> isOpen f \<longrightarrow> isTextChanged s)"
  by (auto simp add: isTextChanged_cases QFile_exists_def isEmpty_def)

theorem isTextChanged_spec_witness:
  "\<not> isTextChanged example_state \<and>
   isTextChanged (example_state\<lparr>editor := ''int main(){} ''\<rparr>) \<and>
   isTextChanged unsaved_state \<and>
   \<not> isTextChanged (unsaved_state\<lparr>editor := []\<rparr>) \<and>
   \<not> isTextChanged (template_state\<lparr>unreadable := {}\<rparr>) \<and>
   isTextChanged (example_state\<lparr>openFile := Some \<lparr>qfileName = ''/home/u/a.cpp'', isOpen = False\<rparr>\<rparr>)"
  using
    isTextChanged_spec [of example_state "''int main(){}''"
      "\<lparr>qfileName = ''/home/u/a.cpp'', isOpen = True\<rparr>"]
    isTextChanged_spec [of "example_state\<lparr>editor := ''int main(){} ''\<rparr>" "''int main(){}''"
      "\<lparr>qfileName = ''/home/u/a.cpp'', isOpen = True\<rparr>"]
    isTextChanged_spec [of unsaved_state]
    isTextChanged_spec [of "unsaved_state\<lparr>editor := []\<rparr>"]
    isTextChanged_spec [of "template_state\<lparr>unreadable := {}\<rparr>" "''x''"]
    isTextChanged_spec [of "example_state\<lparr>openFile :=
      Some \<lparr>qfileName = ''/home/u/a.cpp'', isOpen = False\<rparr>\<rparr>" _
      "\<lparr>qfileName = ''/home/u/a.cpp'', isOpen = False\<rparr>"]
  by (simp add: example_state_def unsaved_state_def template_state_def isEmpty_def)

lemma on_textChanged_triggered_id [simp]: "on_textChanged_triggered s = s"
  by (simp add: on_textChanged_triggered_def Let_def)

text \<open>
  The branches of \<^verbatim>\<open>closeChangedConfirm()\<close>: no dialog and the result true when
  \<^verbatim>\<open>isTextChanged()\<close> is false; otherwise one message box, then true on Discard with
  nothing but the list of dialogs changed, false on Cancel, and on Save the value and
  the state \<^verbatim>\<open>saveFile(true, "Save")\<close> returns.
\<close>

lemma closeChangedConfirm_cases:
  "(\<not> isTextChanged s \<longrightarrow> closeChangedConfirm res chosen s = (True, s)) \<and>
   (isTextChanged s \<longrightarrow>
      (\<exists>body.
         (res = Discard \<longrightarrow>
            closeChangedConfirm res chosen s = (True, s\<lparr>dialogs := dialogs s @ [body]\<rparr>)) \<and>
         (res = Cancel \<longrightarrow>
            closeChangedConfirm res chosen s = (False, s\<lparr>dialogs := dialogs s @ [body]\<rparr>)) \<and>
         (res = Save \<longrightarrow>
            closeChangedConfirm res chosen s =
              saveFile True ''Save'' chosen (s\<lparr>dialogs := dialogs s @ [body]\<rparr>))))"
  by (auto simp add: closeChangedConfirm_def Let_def QMessageBox_warning_def)

lemma closeChangedConfirm_examples:
  "closeChangedConfirm Save [] example_state = (True, example_state) \<and>
   fst (closeChangedConfirm Discard [] unsaved_state) \<and>
   files (snd (closeChangedConfirm Discard [] unsaved_state)) = files unsaved_state \<and>
   \<not> fst (closeChangedConfirm Cancel [] unsaved_state) \<and>
   \<not> fst (closeChangedConfirm Save [] unsaved_state) \<and>
   fst (closeChangedConfirm Save ''/w/a.cpp'' unsaved_state) \<and>
   files (snd (closeChangedConfirm Save ''/w/a.cpp'' unsaved_state)) ''/w/a.cpp'' = Some ''x''"
proof -
  have u: "\<not> isTextChanged example_state" and c: "isTextChanged unsaved_state"
    by (simp_all add: isTextChanged_cases example_state_def unsaved_state_def)
  have a: "closeChangedConfirm Save [] example_state = (True, example_state)"
    using closeChangedConfirm_cases [of example_state Save "[]"] u by blast
  from closeChangedConfirm_cases [of unsaved_state Discard "[]"] c
  obtain b1 where "closeChangedConfirm Discard [] unsaved_state =
      (True, unsaved_state\<lparr>dialogs := dialogs unsaved_state @ [b1]\<rparr>)"
    by blast
  then have d: "fst (closeChangedConfirm Discard [] unsaved_state)"
    "files (snd (closeChangedConfirm Discard [] unsaved_state)) = files unsaved_state"
    by simp_all
  from closeChangedConfirm_cases [of unsaved_state Cancel "[]"] c
  obtain b2 where "closeChangedConfirm Cancel [] unsaved_state =
      (False, unsaved_state\<lparr>dialogs := dialogs unsaved_state @ [b2]\<rparr>)"
    by blast
  then have e: "\<not> fst (closeChangedConfirm Cancel [] unsaved_state)"
    by simp
  from closeChangedConfirm_cases [of unsaved_state Save "[]"] c
  obtain b3 where "closeChangedConfirm Save [] unsaved_state =
      saveFile True ''Save'' [] (unsaved_state\<lparr>dialogs := dialogs unsaved_state @ [b3]\<rparr>)"
    by blast
  then have f: "\<not> fst (closeChangedConfirm Save [] unsaved_state)"
    by (simp add: saveFile_def unsaved_state_def isEmpty_def Let_def
        QFileDialog_getSaveFileName_def)
  from closeChangedConfirm_cases [of unsaved_state Save "''/w/a.cpp''"] c
  obtain b4 where "closeChangedConfirm Save ''/w/a.cpp'' unsaved_state =
      saveFile True ''Save'' ''/w/a.cpp''
        (unsaved_state\<lparr>dialogs := dialogs unsaved_state @ [b4]\<rparr>)"
    by blast
  then have g: "fst (closeChangedConfirm Save ''/w/a.cpp'' unsaved_state)"
    "files (snd (closeChangedConfirm Save ''/w/a.cpp'' unsaved_state)) ''/w/a.cpp'' = Some ''x''"
    by (simp_all add: saveFile_def unsaved_state_def isEmpty_def Let_def
        QFileDialog_getSaveFileName_def QFile_open_def QFile_new_def QFile_write_def
        QFile_resize0_def c_str_def MessageLogger_info_def saveTests_def)
  from a d e f g show ?thesis by simp
qed

text \<open>
  C7: when \<^verbatim>\<open>isTextChanged()\<close> is true and the user chooses Save,
  \<^verbatim>\<open>closeChangedConfirm()\<close> returns the success of the save operation. The source returns
  what \<^verbatim>\<open>saveFile(true, "Save")\<close> returns, and that is true also when nothing was saved: in
  \<open>unsaved_state\<close>, with Save pressed and \<^verbatim>\<open>/ro/a.cpp\<close> chosen in the file dialog, the
  file cannot be opened, nothing is written, the editor text is still unsaved
  (\<^verbatim>\<open>isTextChanged()\<close> is true afterwards), and \<^verbatim>\<open>closeChangedConfirm()\<close> returns true.
\<close>

theorem closeChangedConfirm_true_after_failed_save:
  "isTextChanged unsaved_state \<and>
   fst (closeChangedConfirm Save ''/ro/a.cpp'' unsaved_state) \<and>
   files (snd (closeChangedConfirm Save ''/ro/a.cpp'' unsaved_state)) ''/ro/a.cpp'' = None \<and>
   editor (snd (closeChangedConfirm Save ''/ro/a.cpp'' unsaved_state)) = ''x'' \<and>
   isTextChanged (snd (closeChangedConfirm Save ''/ro/a.cpp'' unsaved_state))"
proof -
  have c: "isTextChanged unsaved_state"
    by (simp add: isTextChanged_cases unsaved_state_def)
  define s1 where "s1 = QMessageBox_warning
     (MainWindow_fileName unsaved_state @ '' has been modified.'' @ [CHR 0x0A] @
      ''Do you want to save your changes?'') unsaved_state"
  have cc: "closeChangedConfirm Save ''/ro/a.cpp'' unsaved_state =
            saveFile True ''Save'' ''/ro/a.cpp'' s1"
    using c by (simp add: closeChangedConfirm_def Let_def s1_def)
  have s1: "s1 = unsaved_state\<lparr>dialogs :=
      [''Unsaved file has been modified.'' @ [CHR 0x0A] @
       ''Do you want to save your changes?'']\<rparr>"
    by (simp add: s1_def QMessageBox_warning_def MainWindow_fileName_def unsaved_state_def)
  have sf: "saveFile True ''Save'' ''/ro/a.cpp'' s1 =
     (True,
      s1\<lparr>dialogs := dialogs s1 @ [''Save File''],
         openFile := Some \<lparr>qfileName = ''/ro/a.cpp'', isOpen = False\<rparr>,
         messages := [(Error, ''Save'', ''Cannot Save file. Do I have write permission?'')]\<rparr>)"
    by (simp add: s1 saveFile_def unsaved_state_def isEmpty_def Let_def
        QFileDialog_getSaveFileName_def QFile_open_def QFile_new_def
        MessageLogger_error_def saveTests_def)
  show ?thesis
    by (simp add: c cc sf isTextChanged_cases) (simp add: s1 unsaved_state_def)
qed

subsection \<open>What a save leaves behind\<close>

lemma c_str_neq_append: "c_str t \<noteq> t @ [c]"
proof
  assume "c_str t = t @ [c]"
  then have "length (c_str t) = length (t @ [c])" by (rule arg_cong)
  moreover have "length (c_str t) \<le> length t"
    by (simp add: c_str_def length_takeWhile_le)
  ultimately show False by simp
qed

lemma saveFile_Some:
  assumes "openFile s = Some f"
  shows "saveFile force head chosen s =
     (True, saveTests (MessageLogger_info head (''Saved with file name '' @ qfileName f)
        (snd (QFile_write f (c_str (editor s)) (QFile_resize0 f s)))))"
  using assms by (simp add: saveFile_def Let_def split: prod.splits)

lemma saveFile_None:
  assumes "openFile s = None"
  shows "saveFile force head chosen s =
     (if \<not> force then (False, s)
      else if chosen = [] then (False, QFileDialog_getSaveFileName ''Save File'' s)
      else
        (True,
         saveTests
          (let s0 = QFileDialog_getSaveFileName ''Save File'' s;
               f = fst (QFile_open ReadWrite (QFile_new chosen) s0);
               s2 = (snd (QFile_open ReadWrite (QFile_new chosen) s0))\<lparr>openFile := Some f\<rparr>
           in if isOpen f then
                (let w = QFile_write f (c_str (editor s2)) (QFile_resize0 f s2)
                 in if fst w then MessageLogger_info head (''Saved file : '' @ qfileName f) (snd w)
                    else MessageLogger_warn head ''File was not saved successfully'' (snd w))
              else MessageLogger_error head
                     ''Cannot Save file. Do I have write permission?'' s2)))"
  using assms by (simp add: saveFile_def Let_def isEmpty_def split: prod.splits)

lemma saveFile_existing_then_unchanged:
  assumes "openFile s = Some f" and "isOpen f" and "qfileName f \<notin> writeFails s"
    and "CHR 0x00 \<notin> set (editor s)"
  shows "fst (saveFile force head chosen s) \<and> \<not> isTextChanged (snd (saveFile force head chosen s))"
proof -
  let ?s1 = "MessageLogger_info head (''Saved with file name '' @ qfileName f)
        (snd (QFile_write f (c_str (editor s)) (QFile_resize0 f s)))"
  have o: "openFile ?s1 = Some f" and e: "editor ?s1 = editor s"
    and c: "files ?s1 (qfileName f) = Some (editor s)"
    using assms
    by (simp_all add: MessageLogger_info_def QFile_write_def QFile_resize0_def c_str_id)
  have "files (saveTests ?s1) (qfileName f) = Some (editor s)"
    using saveTests_keeps_backing_file [OF o] c by simp
  then have "\<not> isTextChanged (saveTests ?s1)"
    using o e assms(2) by (simp add: isTextChanged_cases)
  then show ?thesis
    by (simp add: saveFile_Some [OF assms(1)])
qed

lemma saveFile_new_then_unchanged:
  assumes "openFile s = None" and "chosen \<noteq> []" and "chosen \<notin> unwritable s"
    and "chosen \<notin> unreadable s" and "chosen \<notin> writeFails s"
    and "CHR 0x00 \<notin> set (editor s)"
  shows "fst (saveFile True head chosen s) \<and> \<not> isTextChanged (snd (saveFile True head chosen s))"
proof -
  let ?f = "\<lparr>qfileName = chosen, isOpen = True\<rparr>"
  obtain s3 where sv: "saveFile True head chosen s = (True, saveTests s3)"
    and o: "openFile s3 = Some ?f" and e: "editor s3 = editor s"
    and c: "files s3 chosen = Some (editor s)"
    using assms
    by (simp add: saveFile_None Let_def QFileDialog_getSaveFileName_def QFile_open_def
        QFile_new_def QFile_write_def QFile_resize0_def MessageLogger_info_def c_str_id)
  have "files (saveTests s3) (qfileName ?f) = Some (editor s)"
    using saveTests_keeps_backing_file [OF o] c by simp
  then have "\<not> isTextChanged (saveTests s3)"
    using o e by (simp add: isTextChanged_cases)
  then show ?thesis
    by (simp add: sv)
qed

lemma isTextChanged_open:
  assumes "openFile s = Some f" and "isOpen f" and "files s (qfileName f) = Some t"
  shows "isTextChanged (s\<lparr>editor := e\<rparr>) = (e \<noteq> t)"
  using assms by (simp add: isTextChanged_cases)

lemma isTextChanged_closed:
  assumes "openFile s = Some f" and "\<not> isOpen f"
  shows "isTextChanged (s\<lparr>editor := e\<rparr>)"
  using assms by (simp add: isTextChanged_cases)

lemma saveFile_existing_result:
  assumes "openFile s = Some f"
  obtains s' where "saveFile force head chosen s = (True, s')" and "openFile s' = Some f"
    and "isOpen f \<Longrightarrow>
         files s' (qfileName f) = Some [] \<or> files s' (qfileName f) = Some (c_str (editor s))"
proof -
  let ?s1 = "MessageLogger_info head (''Saved with file name '' @ qfileName f)
        (snd (QFile_write f (c_str (editor s)) (QFile_resize0 f s)))"
  have o: "openFile ?s1 = Some f"
    using assms by (simp add: MessageLogger_info_def QFile_write_def QFile_resize0_def)
  have c: "isOpen f \<Longrightarrow>
      files ?s1 (qfileName f) = Some [] \<or> files ?s1 (qfileName f) = Some (c_str (editor s))"
    by (simp add: MessageLogger_info_def QFile_write_def QFile_resize0_def)
  show ?thesis
  proof (rule that [of "saveTests ?s1"])
    show "saveFile force head chosen s = (True, saveTests ?s1)"
      by (rule saveFile_Some [OF assms])
    show "openFile (saveTests ?s1) = Some f"
      using o by simp
    show "files (saveTests ?s1) (qfileName f) = Some [] \<or>
          files (saveTests ?s1) (qfileName f) = Some (c_str (editor s))" if "isOpen f"
      using c [OF that] saveTests_keeps_backing_file [OF o] by simp
  qed
qed

lemma saveFile_new_result:
  assumes "openFile s = None" and "fst (saveFile force head chosen s)"
  obtains s' f where "saveFile force head chosen s = (True, s')" and "openFile s' = Some f"
    and "isOpen f \<Longrightarrow>
         files s' (qfileName f) = Some [] \<or> files s' (qfileName f) = Some (c_str (editor s))"
proof -
  from assms have fc: "force" "chosen \<noteq> []"
    by (auto simp add: saveFile_None split: if_splits)
  define s0 where "s0 = QFileDialog_getSaveFileName ''Save File'' s"
  define f where "f = fst (QFile_open ReadWrite (QFile_new chosen) s0)"
  define s2 where "s2 = (snd (QFile_open ReadWrite (QFile_new chosen) s0))\<lparr>openFile := Some f\<rparr>"
  define s3 where "s3 =
     (if isOpen f then
        (let w = QFile_write f (c_str (editor s2)) (QFile_resize0 f s2)
         in if fst w then MessageLogger_info head (''Saved file : '' @ qfileName f) (snd w)
            else MessageLogger_warn head ''File was not saved successfully'' (snd w))
      else MessageLogger_error head ''Cannot Save file. Do I have write permission?'' s2)"
  have sv: "saveFile force head chosen s = (True, saveTests s3)"
    using fc by (simp add: saveFile_None [OF assms(1)] s3_def s2_def f_def s0_def Let_def)
  have e: "editor s2 = editor s"
    by (simp add: s2_def s0_def QFileDialog_getSaveFileName_def QFile_open_def Let_def)
  have o: "openFile s3 = Some f"
    by (simp add: s3_def s2_def Let_def MessageLogger_info_def MessageLogger_warn_def
        MessageLogger_error_def QFile_write_def QFile_resize0_def)
  have c: "isOpen f \<Longrightarrow>
      files s3 (qfileName f) = Some [] \<or> files s3 (qfileName f) = Some (c_str (editor s))"
    by (simp add: s3_def e Let_def MessageLogger_info_def MessageLogger_warn_def
        QFile_write_def QFile_resize0_def)
  show ?thesis
  proof (rule that [of "saveTests s3" f])
    show "saveFile force head chosen s = (True, saveTests s3)" by (rule sv)
    show "openFile (saveTests s3) = Some f" using o by simp
    show "files (saveTests s3) (qfileName f) = Some [] \<or>
          files (saveTests s3) (qfileName f) = Some (c_str (editor s))" if "isOpen f"
      using c [OF that] saveTests_keeps_backing_file [OF o] by simp
  qed
qed

lemma saveFile_then_append_changed:
  assumes "fst (saveFile force head chosen s)"
  shows "isTextChanged ((snd (saveFile force head chosen s))\<lparr>editor := editor s @ [c]\<rparr>)"
proof -
  obtain s' f where sv: "saveFile force head chosen s = (True, s')"
    and o: "openFile s' = Some f"
    and ct: "isOpen f \<Longrightarrow>
         files s' (qfileName f) = Some [] \<or> files s' (qfileName f) = Some (c_str (editor s))"
  proof (cases "openFile s")
    case None
    from saveFile_new_result [OF None assms] that show ?thesis by blast
  next
    case (Some g)
    from saveFile_existing_result [OF Some] that show ?thesis by blast
  qed
  show ?thesis
  proof (cases "isOpen f")
    case False
    with o show ?thesis
      by (simp add: sv isTextChanged_closed)
  next
    case True
    from ct [OF True] show ?thesis
    proof
      assume "files s' (qfileName f) = Some []"
      from isTextChanged_open [OF o True this] show ?thesis
        by (simp add: sv)
    next
      assume "files s' (qfileName f) = Some (c_str (editor s))"
      from isTextChanged_open [OF o True this] c_str_neq_append [of "editor s" c]
      show ?thesis
        by (simp add: sv)
    qed
  qed
qed

lemma saveFile_failed_open:
  "saveFile True ''Save'' ''/ro/a.cpp'' unsaved_state =
     (True,
      unsaved_state
        \<lparr>dialogs := [''Save File''],
         openFile := Some \<lparr>qfileName = ''/ro/a.cpp'', isOpen = False\<rparr>,
         messages := [(Error, ''Save'', ''Cannot Save file. Do I have write permission?'')]\<rparr>)"
  by (simp add: saveFile_def unsaved_state_def isEmpty_def Let_def
      QFileDialog_getSaveFileName_def QFile_open_def QFile_new_def
      MessageLogger_error_def saveTests_def)

text \<open>
  C8: after a call to \<^verbatim>\<open>saveFile\<close> that returns true, with the editor buffer unmodified,
  \<^verbatim>\<open>isTextChanged()\<close> returns false. The source returns true from \<^verbatim>\<open>saveFile\<close> also when the
  file the user chose could not be opened: in \<open>unsaved_state\<close>, saving to \<^verbatim>\<open>/ro/a.cpp\<close>
  logs the error, writes nothing, returns true, and \<^verbatim>\<open>isTextChanged()\<close> is true afterwards.
\<close>

theorem saveFile_true_after_failed_open:
  "fst (saveFile True ''Save'' ''/ro/a.cpp'' unsaved_state) \<and>
   editor (snd (saveFile True ''Save'' ''/ro/a.cpp'' unsaved_state)) = editor unsaved_state \<and>
   files (snd (saveFile True ''Save'' ''/ro/a.cpp'' unsaved_state)) ''/ro/a.cpp'' = None \<and>
   isTextChanged (snd (saveFile True ''Save'' ''/ro/a.cpp'' unsaved_state))"
  by (simp add: saveFile_failed_open isTextChanged_cases) (simp add: unsaved_state_def)

end
